theory Spec2Isabelle
  imports Complex_Main
begin

section \<open>Eigenvector centrality (networkx/algorithms/centrality/eigenvector.py)\<close>

text \<open>
  The module computes eigenvector centrality in two ways: by power iteration
  (\<open>eigenvector_centrality\<close>) and through NumPy's dense eigen-solver
  (\<open>eigenvector_centrality_numpy\<close>).

  Numbers: Python floats are read as exact reals. Rounding, overflow and the special values
  of IEEE arithmetic are outside this development, with one exception: the final division of
  the NumPy variant, where a zero divisor yields \<open>nan\<close> or an infinity instead of raising,
  is written out. Eigenvalues and eigenvectors are real.

  Dictionaries are association lists, in iteration order; a Python dictionary has distinct
  keys, and the statements that depend on it say so. Exceptions are values of the type
  \<open>error\<close>: a function that can raise returns \<open>Inl\<close> of the exception or \<open>Inr\<close> of its
  result.
\<close>

subsection \<open>Data model\<close>

datatype graph_class = Graph | DiGraph | MultiGraph | MultiDiGraph

type_synonym attrs = "(string \<times> real) list"

type_synonym 'n dict = "('n \<times> real) list"

text \<open>A graph object: its class (what \<open>type(G)\<close> returns) and the adjacency structure
  \<open>G.adj\<close>, a dictionary from node to a dictionary from neighbour to edge attributes.\<close>

record 'n graph =
  gclass :: graph_class
  adj :: "('n \<times> ('n \<times> attrs) list) list"

datatype error =
    Exception string
  | ZeroDivisionError
  | KeyError
  | IndexError
  | NetworkXError string
  | ImportError string
  | ValueError

subsection \<open>Dictionary and arithmetic primitives\<close>

definition keys :: "('k \<times> 'v) list \<Rightarrow> 'k list" where
  "keys d = map fst d"

definition values_of :: "('k \<times> 'v) list \<Rightarrow> 'v list" where
  "values_of d = map snd d"

definition getitem :: "('k \<times> 'v) list \<Rightarrow> 'k \<Rightarrow> error + 'v" where
  "getitem d k = (case map_of d k of None \<Rightarrow> Inl KeyError | Some v \<Rightarrow> Inr v)"

fun setitem :: "('k \<times> 'v) list \<Rightarrow> 'k \<Rightarrow> 'v \<Rightarrow> ('k \<times> 'v) list" where
  "setitem [] k v = [(k, v)]"
| "setitem ((k', v') # d) k v = (if k' = k then (k, v) # d else (k', v') # setitem d k v)"

definition fromkeys :: "'k list \<Rightarrow> 'v \<Rightarrow> ('k \<times> 'v) list" where
  "fromkeys ks v = map (\<lambda>k. (k, v)) ks"

definition py_div :: "real \<Rightarrow> real \<Rightarrow> error + real" where
  "py_div a b = (if b = 0 then Inl ZeroDivisionError else Inr (a / b))"

definition len :: "'n graph \<Rightarrow> nat" where
  "len G = length (adj G)"

definition number_of_nodes :: "'n graph \<Rightarrow> nat" where
  "number_of_nodes G = length (adj G)"

text \<open>\<open>d.get('weight', 1)\<close> on an edge attribute dictionary.\<close>

definition get_weight :: "attrs \<Rightarrow> real" where
  "get_weight d = (case map_of d ''weight'' of None \<Rightarrow> 1 | Some w \<Rightarrow> w)"

text \<open>Lines 68 and 144: \<open>type(G) == networkx.MultiGraph or type(G) == networkx.MultiDiGraph\<close>.\<close>

definition is_multigraph_type :: "'n graph \<Rightarrow> bool" where
  "is_multigraph_type G \<longleftrightarrow> gclass G = MultiGraph \<or> gclass G = MultiDiGraph"

subsection \<open>Power iteration: \<open>eigenvector_centrality\<close>\<close>

text \<open>Line 74, \<open>dict([(n,1.0/len(G)) for n in G])\<close>: the quotient is evaluated once per
  node, so not at all when the graph has no node.\<close>

fun default_start :: "'n list \<Rightarrow> nat \<Rightarrow> error + 'n dict" where
  "default_start [] l = Inr []"
| "default_start (n # ns) l =
     (case py_div 1 (real l) of
        Inl e \<Rightarrow> Inl e
      | Inr v \<Rightarrow> (case default_start ns l of
                    Inl e \<Rightarrow> Inl e
                  | Inr d \<Rightarrow> Inr ((n, v) # d)))"

text \<open>\<open>for k in x: x[k]*=s\<close>, used at lines 79 and 94.\<close>

definition scale :: "real \<Rightarrow> 'n dict \<Rightarrow> 'n dict" where
  "scale s d = map (\<lambda>(k, v). (k, v * s)) d"

text \<open>Lines 78-79: the L1 normalisation of the starting vector.\<close>

definition normalize_start :: "'n dict \<Rightarrow> error + 'n dict" where
  "normalize_start d =
     (case py_div 1 (sum_list (values_of d)) of
        Inl e \<Rightarrow> Inl e
      | Inr s \<Rightarrow> Inr (scale s d))"

text \<open>Lines 87-88: the inner loop over the neighbours of \<open>n\<close>; \<open>nbrs\<close> is \<open>G[n]\<close>.\<close>

fun inner_loop :: "'n dict \<Rightarrow> 'n \<Rightarrow> ('n \<times> attrs) list \<Rightarrow> 'n list \<Rightarrow> 'n dict \<Rightarrow> error + 'n dict" where
  "inner_loop xl n nbrs [] d = Inr d"
| "inner_loop xl n nbrs (nbr # rest) d =
     (case getitem d n of
        Inl e \<Rightarrow> Inl e
      | Inr old \<Rightarrow>
          (case getitem xl nbr of
             Inl e \<Rightarrow> Inl e
           | Inr v \<Rightarrow>
               (case getitem nbrs nbr of
                  Inl e \<Rightarrow> Inl e
                | Inr a \<Rightarrow> inner_loop xl n nbrs rest (setitem d n (old + v * get_weight a)))))"

text \<open>Lines 86-88: the multiplication \<open>y = A x\<close>, node by node.\<close>

fun outer_loop :: "'n graph \<Rightarrow> 'n dict \<Rightarrow> 'n list \<Rightarrow> 'n dict \<Rightarrow> error + 'n dict" where
  "outer_loop G xl [] d = Inr d"
| "outer_loop G xl (n # ns) d =
     (case getitem (adj G) n of
        Inl e \<Rightarrow> Inl e
      | Inr nbrs \<Rightarrow>
          (case inner_loop xl n nbrs (keys nbrs) d of
             Inl e \<Rightarrow> Inl e
           | Inr d' \<Rightarrow> outer_loop G xl ns d'))"

text \<open>Lines 90-93: the scale factor, with the guard for a zero norm.\<close>

definition norm_factor :: "'n dict \<Rightarrow> real" where
  "norm_factor d =
     (case py_div 1 (sqrt (sum_list (map (\<lambda>v. v ^ 2) (values_of d)))) of
        Inl e \<Rightarrow> 1
      | Inr s \<Rightarrow> s)"

text \<open>Line 96: \<open>sum([abs(x[n]-xlast[n]) for n in x])\<close>.\<close>

fun abs_diffs :: "'n dict \<Rightarrow> 'n dict \<Rightarrow> 'n list \<Rightarrow> error + real list" where
  "abs_diffs d xl [] = Inr []"
| "abs_diffs d xl (n # ns) =
     (case getitem d n of
        Inl e \<Rightarrow> Inl e
      | Inr a \<Rightarrow>
          (case getitem xl n of
             Inl e \<Rightarrow> Inl e
           | Inr b \<Rightarrow>
               (case abs_diffs d xl ns of
                  Inl e \<Rightarrow> Inl e
                | Inr r \<Rightarrow> Inr (\<bar>a - b\<bar> # r))))"

text \<open>The two vectors of the loop.\<close>

record 'n iteration_state =
  st_x :: "'n dict"
  st_xlast :: "'n dict"

text \<open>Lines 83-96: one pass of the loop body up to the error term. The result is the new
  state and \<open>err\<close>.\<close>

definition iteration :: "'n graph \<Rightarrow> 'n iteration_state \<Rightarrow> error + ('n iteration_state \<times> real)" where
  "iteration G st =
     (let xl = st_x st;
          d0 = fromkeys (keys xl) 0
      in case outer_loop G xl (keys d0) d0 of
           Inl e \<Rightarrow> Inl e
         | Inr y \<Rightarrow>
             (let s = norm_factor y;
                  d = scale s y
              in case abs_diffs d xl (keys d) of
                   Inl e \<Rightarrow> Inl e
                 | Inr ds \<Rightarrow> Inr (\<lparr>st_x = d, st_xlast = xl\<rparr>, sum_list ds)))"

text \<open>Lines 100-101. The closing quotes of the literal come after \<open>%(i+1))\<close>, so the
  format operator is text of the message.\<close>

definition convergence_message :: string where
  "convergence_message =
     ''eigenvector_centrality(): '' @ [CHR 0x0A] @
     ''power iteration failed to converge in %d iterations.'' @ [CHR 0x22] @ ''%(i+1))''"

text \<open>Lines 82-101: \<open>k\<close> passes are left.\<close>

fun power_loop :: "'n graph \<Rightarrow> real \<Rightarrow> nat \<Rightarrow> 'n iteration_state \<Rightarrow> error + 'n dict" where
  "power_loop G tol 0 st = Inl (NetworkXError convergence_message)"
| "power_loop G tol (Suc k) st =
     (case iteration G st of
        Inl e \<Rightarrow> Inl e
      | Inr (st', err) \<Rightarrow>
          if err < real (number_of_nodes G) * tol then Inr (st_x st')
          else power_loop G tol k st')"

text \<open>The whole function. \<open>nstart\<close> is the caller's dictionary, if one is passed; the first
  component of the result is what that dictionary holds when the call ends, the second is
  the value returned or the exception raised.\<close>

definition eigenvector_centrality ::
  "'n graph \<Rightarrow> int \<Rightarrow> real \<Rightarrow> 'n dict option \<Rightarrow> 'n dict option \<times> (error + 'n dict)" where
  "eigenvector_centrality G max_iter tol nstart =
     (if is_multigraph_type G
      then (nstart, Inl (Exception ''eigenvector_centrality() not defined for multigraphs.''))
      else
        (case (case nstart of
                 None \<Rightarrow> default_start (keys (adj G)) (len G)
               | Some d \<Rightarrow> Inr d) of
           Inl e \<Rightarrow> (nstart, Inl e)
         | Inr x0 \<Rightarrow>
             (case normalize_start x0 of
                Inl e \<Rightarrow> (nstart, Inl e)
              | Inr x1 \<Rightarrow>
                  (map_option (\<lambda>_. x1) nstart,
                   power_loop G tol (nat max_iter) \<lparr>st_x = x1, st_xlast = x1\<rparr>))))"

subsection \<open>Dense eigen-solver: \<open>eigenvector_centrality_numpy\<close>\<close>

text \<open>What the function takes from outside this module: whether \<open>import numpy\<close> succeeds,
  \<open>networkx.connected_components\<close>, and \<open>numpy.linalg.eig\<close>, which returns the
  eigenvalues and the matrix whose columns are the eigenvectors (a list of rows here).\<close>

record 'n backend =
  numpy_importable :: bool
  connected_components :: "'n graph \<Rightarrow> 'n list list"
  eig :: "real list list \<Rightarrow> real list \<times> real list list"

text \<open>Modelled from the spec: \<open>networkx.adj_matrix\<close> is not part of this module; the spec
  describes it as the dense weighted adjacency matrix built in the caller's node order, an
  absent edge being 0 and an edge without weight being 1.\<close>

definition adj_matrix :: "'n graph \<Rightarrow> 'n list \<Rightarrow> real list list" where
  "adj_matrix G nodelist =
     map (\<lambda>u. map (\<lambda>v. case map_of (adj G) u of
                            None \<Rightarrow> 0
                          | Some nbrs \<Rightarrow> (case map_of nbrs v of
                                           None \<Rightarrow> 0
                                         | Some a \<Rightarrow> get_weight a)) nodelist) nodelist"

text \<open>\<open>a.argsort()\<close>: the indices that sort \<open>a\<close> in ascending order. Equal values keep
  their order here; NumPy leaves the order of equal values to its sorting routine.\<close>

definition argsort :: "real list \<Rightarrow> nat list" where
  "argsort a = map snd (sort_key fst (zip a [0..<length a]))"

text \<open>\<open>xs[0]\<close> and the column \<open>m[:,j]\<close>.\<close>

definition first_index :: "nat list \<Rightarrow> error + nat" where
  "first_index xs = (case xs of [] \<Rightarrow> Inl IndexError | j # _ \<Rightarrow> Inr j)"

fun column :: "real list list \<Rightarrow> nat \<Rightarrow> error + real list" where
  "column [] j = Inr []"
| "column (row # rows) j =
     (if j < length row
      then (case column rows j of Inl e \<Rightarrow> Inl e | Inr c \<Rightarrow> Inr (row ! j # c))
      else Inl IndexError)"

text \<open>\<open>largest.max()\<close>; NumPy raises ValueError on an empty array.\<close>

definition np_max :: "real list \<Rightarrow> error + real" where
  "np_max xs = (case xs of [] \<Rightarrow> Inl ValueError | y # ys \<Rightarrow> Inr (fold max ys y))"

text \<open>Lines 152-157: the eigenvector of the largest eigenvalue of one component.\<close>

definition dominant :: "'n backend \<Rightarrow> 'n graph \<Rightarrow> 'n list \<Rightarrow> error + real list" where
  "dominant B G nodes =
     (let A = adj_matrix G nodes;
          (eigenvalues, eigenvectors) = eig B A;
          ind = rev (argsort eigenvalues)
      in case first_index ind of
           Inl e \<Rightarrow> Inl e
         | Inr j \<Rightarrow> column eigenvectors j)"

text \<open>\<open>d.update(pairs)\<close>.\<close>

fun update :: "('k \<times> 'v) list \<Rightarrow> ('k \<times> 'v) list \<Rightarrow> ('k \<times> 'v) list" where
  "update d [] = d"
| "update d ((k, v) # ps) = update (setitem d k v) ps"

text \<open>Lines 152-158: the loop body for one component.\<close>

definition component_step :: "'n backend \<Rightarrow> 'n graph \<Rightarrow> 'n list \<Rightarrow> 'n dict \<Rightarrow> error + 'n dict" where
  "component_step B G nodes centrality =
     (case dominant B G nodes of
        Inl e \<Rightarrow> Inl e
      | Inr largest \<Rightarrow>
          (case np_max largest of
             Inl e \<Rightarrow> Inl e
           | Inr m \<Rightarrow> Inr (update centrality (zip nodes (map (\<lambda>v. v * sgn m) largest)))))"

text \<open>Lines 151-158: the loop over the components.\<close>

fun component_loop :: "'n backend \<Rightarrow> 'n graph \<Rightarrow> 'n list list \<Rightarrow> 'n dict \<Rightarrow> error + 'n dict" where
  "component_loop B G [] centrality = Inr centrality"
| "component_loop B G (nodes # rest) centrality =
     (case component_step B G nodes centrality of
        Inl e \<Rightarrow> Inl e
      | Inr c \<Rightarrow> component_loop B G rest c)"

text \<open>Lines 148-158: the assembled vector, before the final division.\<close>

definition assemble :: "'n backend \<Rightarrow> 'n graph \<Rightarrow> error + 'n dict" where
  "assemble B G =
     component_loop B G (connected_components B G) (fromkeys (keys (adj G)) 0)"

text \<open>NumPy's division does not raise on a zero divisor.\<close>

datatype npfloat = Fin real | PosInf | NegInf | NaN

definition np_divide :: "real \<Rightarrow> real \<Rightarrow> npfloat" where
  "np_divide v d =
     (if d \<noteq> 0 then Fin (v / d)
      else if v = 0 then NaN
      else if 0 < v then PosInf else NegInf)"

text \<open>\<open>np.linalg.norm\<close> of a vector.\<close>

definition linalg_norm :: "real list \<Rightarrow> real" where
  "linalg_norm vs = sqrt (sum_list (map (\<lambda>v. v ^ 2) vs))"

definition eigenvector_centrality_numpy :: "'n backend \<Rightarrow> 'n graph \<Rightarrow> error + ('n \<times> npfloat) list" where
  "eigenvector_centrality_numpy B G =
     (if \<not> numpy_importable B
      then Inl (ImportError ''eigenvector_centrality_numpy() requires NumPy: http://scipy.org/'')
      else if is_multigraph_type G
      then Inl (Exception ''eigenvector_centrality_numpy() not defined for multigraphs.'')
      else
        (case assemble B G of
           Inl e \<Rightarrow> Inl e
         | Inr centrality \<Rightarrow>
             (let norm = linalg_norm (values_of centrality)
              in Inr (map (\<lambda>(n, v). (n, np_divide v norm)) centrality))))"

text \<open>The Euclidean norm of a returned vector; it is defined when every entry is a number.\<close>

fun fin_values :: "npfloat list \<Rightarrow> real list option" where
  "fin_values [] = Some []"
| "fin_values (Fin v # r) = map_option ((#) v) (fin_values r)"
| "fin_values (_ # r) = None"

definition l2_norm :: "real list \<Rightarrow> real" where
  "l2_norm vs = sqrt (sum_list (map (\<lambda>v. v ^ 2) vs))"

subsection \<open>The matrix-vector product as the specification words it\<close>

text \<open>The specification's graph interface: \<open>neighbors(n)\<close>, and \<open>weight(n, neighbor)\<close>,
  "defaulting to 1.0 if unspecified": an edge optionally carries a weight, and its weight is
  the one it carries, or 1 when it carries none. These definitions are written from those
  words and do not go through the attribute lookup of the code.\<close>

definition neighbors :: "'n graph \<Rightarrow> 'n \<Rightarrow> 'n list" where
  "neighbors G n = (case map_of (adj G) n of None \<Rightarrow> [] | Some nbrs \<Rightarrow> keys nbrs)"

fun specified_weight :: "attrs \<Rightarrow> real option" where
  "specified_weight [] = None"
| "specified_weight ((k, w) # a) = (if k = ''weight'' then Some w else specified_weight a)"

definition weight :: "'n graph \<Rightarrow> 'n \<Rightarrow> 'n \<Rightarrow> real" where
  "weight G n b =
     (case map_of (adj G) n of
        None \<Rightarrow> 0
      | Some nbrs \<Rightarrow>
          (case map_of nbrs b of
             None \<Rightarrow> 0
           | Some a \<Rightarrow> (if specified_weight a = None then 1 else the (specified_weight a))))"

text \<open>The sum over the neighbours \<open>b\<close> of \<open>n\<close> of \<open>previous[b] * weight(n, b)\<close>, and the
  scale factor: 1 over the Euclidean norm, or 1 when the norm is zero.\<close>

definition entry :: "'n dict \<Rightarrow> 'n \<Rightarrow> real" where
  "entry d n = (case map_of d n of None \<Rightarrow> 0 | Some v \<Rightarrow> v)"

definition spec_product :: "'n graph \<Rightarrow> 'n dict \<Rightarrow> 'n \<Rightarrow> real" where
  "spec_product G previous n = (\<Sum>b\<leftarrow>neighbors G n. entry previous b * weight G n b)"

definition spec_scale_factor :: "real list \<Rightarrow> real" where
  "spec_scale_factor ys = (if l2_norm ys = 0 then 1 else 1 / l2_norm ys)"

subsection \<open>Example inputs\<close>

definition empty_graph :: "nat graph" where
  "empty_graph = \<lparr>gclass = Graph, adj = []\<rparr>"

definition single_node :: "nat graph" where
  "single_node = \<lparr>gclass = Graph, adj = [(0, [])]\<rparr>"

definition path2 :: "nat graph" where
  "path2 = \<lparr>gclass = Graph, adj = [(0, [(1, [])]), (1, [(0, [])])]\<rparr>"

definition path2_isolated :: "nat graph" where
  "path2_isolated = \<lparr>gclass = Graph, adj = [(0, [(1, [])]), (1, [(0, [])]), (2, [])]\<rparr>"

text \<open>A multigraph object. Its adjacency structure is never read; the field holds the
  neighbour relation only.\<close>

definition multi_path2 :: "nat graph" where
  "multi_path2 = \<lparr>gclass = MultiGraph, adj = [(0, [(1, [])]), (1, [(0, [])])]\<rparr>"

text \<open>An installation without NumPy.\<close>

definition no_numpy :: "nat backend" where
  "no_numpy = \<lparr>numpy_importable = False,
               connected_components = (\<lambda>G. []),
               eig = (\<lambda>A. ([], []))\<rparr>"

text \<open>An installation with NumPy, tabulated on what the examples ask of it: the components
  of \<open>path2_isolated\<close> and of \<open>path2\<close>, and the eigen-decompositions of the matrices
  \<open>[[0,1],[1,0]]\<close> (eigenvalues 1 and -1) and \<open>[[0]]\<close> (eigenvalue 0), with unit
  eigenvectors as columns.\<close>

definition with_numpy :: "nat backend" where
  "with_numpy =
     \<lparr>numpy_importable = True,
      connected_components =
        (\<lambda>G. if adj G = adj path2_isolated then [[0, 1], [2]]
             else if adj G = adj path2 then [[0, 1]]
             else []),
      eig =
        (\<lambda>A. if A = [[0, 1], [1, 0]]
             then ([1, -1], [[1 / sqrt 2, - (1 / sqrt 2)], [1 / sqrt 2, 1 / sqrt 2]])
             else if A = [[0]] then ([0], [[1]])
             else ([], []))\<rparr>"

text \<open>The path 0-1-2 with unequal weights: the edge 0-1 carries weight 2 (beside another
  attribute), the edge 1-2 carries no weight.\<close>

definition weighted_path3 :: "int graph" where
  "weighted_path3 =
     \<lparr>gclass = Graph,
      adj = [(0, [(1, [(''capacity'', 7), (''weight'', 2)])]),
             (1, [(0, [(''capacity'', 7), (''weight'', 2)]), (2, [])]),
             (2, [(1, [])])]\<rparr>"

text \<open>Two nodes joined by an edge of weight 0, and a solver that answers the zero matrix
  with the negated unit vectors, which is a valid decomposition of it.\<close>

definition zero_weight_path2 :: "nat graph" where
  "zero_weight_path2 =
     \<lparr>gclass = Graph,
      adj = [(0, [(1, [(''weight'', 0)])]), (1, [(0, [(''weight'', 0)])])]\<rparr>"

definition negated_solver :: "nat backend" where
  "negated_solver =
     \<lparr>numpy_importable = True,
      connected_components = (\<lambda>G. [[0, 1]]),
      eig = (\<lambda>A. ([0, 0], [[-1, 0], [0, -1]]))\<rparr>"

subsection \<open>Well-formed arguments\<close>

text \<open>A vector fits a graph when its keys are distinct, each key is a node of the graph and
  each neighbour of a key is a key again. The default starting vector of a NetworkX graph
  fits; a supplied one is expected to.\<close>

definition fits :: "'n graph \<Rightarrow> 'n dict \<Rightarrow> bool" where
  "fits G d \<longleftrightarrow>
     distinct (keys d) \<and>
     (\<forall>n \<in> set (keys d). case map_of (adj G) n of
                              None \<Rightarrow> False
                            | Some nbrs \<Rightarrow> set (keys nbrs) \<subseteq> set (keys d))"

text \<open>A graph without edges: every adjacency dictionary is empty.\<close>

definition has_no_edges :: "'n graph \<Rightarrow> bool" where
  "has_no_edges G \<longleftrightarrow> list_all (\<lambda>(n, nbrs). nbrs = []) (adj G)"

text \<open>Every entry a vector has for the node \<open>n\<close> is 0.\<close>

definition zero_at :: "'n \<Rightarrow> 'n dict \<Rightarrow> bool" where
  "zero_at n d \<longleftrightarrow> (\<forall>(k, v) \<in> set d. k = n \<longrightarrow> v = 0)"

section \<open>Properties\<close>

subsection \<open>Basic facts about the primitives\<close>

lemma default_start_eq:
  "0 < l \<Longrightarrow> default_start ns l = Inr (map (\<lambda>n. (n, 1 / real l)) ns)"
  by (induction ns) (simp_all add: py_div_def)

lemma default_start_total: "ns = [] \<or> 0 < l \<Longrightarrow> \<exists>d. default_start ns l = Inr d"
  using default_start_eq [of l ns] by (cases ns) auto

lemma normalize_start_zero_sum:
  "sum_list (values_of d) = 0 \<Longrightarrow> normalize_start d = Inl ZeroDivisionError"
  by (simp add: normalize_start_def py_div_def)

lemma normalize_start_nonzero_sum:
  "sum_list (values_of d) \<noteq> 0 \<Longrightarrow>
     normalize_start d = Inr (scale (1 / sum_list (values_of d)) d)"
  by (simp add: normalize_start_def py_div_def)

subsection \<open>Rejection of multigraphs\<close>

text \<open>
  C5, as stated, fails for \<open>eigenvector_centrality_numpy\<close>: the function imports NumPy
  before it looks at the type of the graph (lines 138-146), so on an installation without
  NumPy a multigraph is answered with ImportError, not with the multigraph exception.
\<close>

theorem multigraph_without_numpy:
  "is_multigraph_type multi_path2
   \<and> eigenvector_centrality_numpy no_numpy multi_path2 =
        Inl (ImportError ''eigenvector_centrality_numpy() requires NumPy: http://scipy.org/'')"
  by (simp add: is_multigraph_type_def multi_path2_def eigenvector_centrality_numpy_def
      no_numpy_def)

text \<open>
  C5, amended: for every graph whose type is MultiGraph or MultiDiGraph,
  \<open>eigenvector_centrality\<close> raises the multigraph exception as its first check, whatever
  the other arguments are, and leaves a supplied starting vector as it was;
  \<open>eigenvector_centrality_numpy\<close> raises the multigraph exception when NumPy can be
  imported and ImportError when it cannot, in both cases whatever the component finder and
  the eigen-solver would answer, so before any decomposition.
\<close>

theorem multigraph_rejected:
  assumes "is_multigraph_type G"
  shows "eigenvector_centrality G max_iter tol nstart =
           (nstart, Inl (Exception ''eigenvector_centrality() not defined for multigraphs.''))
       \<and> eigenvector_centrality_numpy B G =
           (if numpy_importable B
            then Inl (Exception ''eigenvector_centrality_numpy() not defined for multigraphs.'')
            else Inl (ImportError
                        ''eigenvector_centrality_numpy() requires NumPy: http://scipy.org/''))"
  using assms by (simp add: eigenvector_centrality_def eigenvector_centrality_numpy_def)

theorem multigraph_rejected_witness:
  "is_multigraph_type multi_path2
   \<and> eigenvector_centrality multi_path2 100 (1 / 1000000) None =
        (None, Inl (Exception ''eigenvector_centrality() not defined for multigraphs.''))
   \<and> eigenvector_centrality_numpy with_numpy multi_path2 =
        Inl (Exception ''eigenvector_centrality_numpy() not defined for multigraphs.'')"
proof -
  have m: "is_multigraph_type multi_path2"
    by (simp add: is_multigraph_type_def multi_path2_def)
  have n: "numpy_importable with_numpy"
    by (simp add: with_numpy_def)
  show ?thesis
    using m n multigraph_rejected [OF m, of 100 "1 / 1000000" None with_numpy] by simp
qed

subsection \<open>Divisions of the initialisation\<close>

text \<open>
  C10, as stated, fails in its first half: for a graph without nodes the quotient
  \<open>1.0/len(G)\<close> of line 74 is never evaluated, because it stands in the body of a
  comprehension over the nodes. The default starting vector is built without an exception;
  it is the empty dictionary.
\<close>

theorem empty_graph_start_does_not_raise:
  "default_start (keys (adj empty_graph)) (len empty_graph) = Inr []
   \<and> default_start (keys (adj empty_graph)) (len empty_graph) \<noteq> Inl ZeroDivisionError"
  by (simp add: empty_graph_def keys_def)

text \<open>
  C10, amended: the initialisation has one division that can fail, the factor
  \<open>1.0/sum(x.values())\<close> of line 78. Building the default starting vector never raises.
  For a graph without nodes the default vector is empty, its sum is 0, and line 78 raises
  ZeroDivisionError; for a supplied starting vector whose values sum to 0 line 78 raises
  ZeroDivisionError as well, and the supplied vector is left as it was. In both cases the
  exception reaches the caller.
\<close>

theorem start_divisions:
  assumes "\<not> is_multigraph_type G"
  shows "(\<exists>d. default_start (keys (adj G)) (len G) = Inr d)
       \<and> (adj G = [] \<longrightarrow>
            eigenvector_centrality G max_iter tol None = (None, Inl ZeroDivisionError))
       \<and> (sum_list (values_of x) = 0 \<longrightarrow>
            eigenvector_centrality G max_iter tol (Some x) = (Some x, Inl ZeroDivisionError))"
proof (intro conjI impI)
  show "\<exists>d. default_start (keys (adj G)) (len G) = Inr d"
    by (rule default_start_total) (auto simp: keys_def len_def)
next
  assume "adj G = []"
  then show "eigenvector_centrality G max_iter tol None = (None, Inl ZeroDivisionError)"
    using assms
    by (simp add: eigenvector_centrality_def keys_def normalize_start_zero_sum values_of_def)
next
  assume "sum_list (values_of x) = 0"
  then show "eigenvector_centrality G max_iter tol (Some x) = (Some x, Inl ZeroDivisionError)"
    using assms by (simp add: eigenvector_centrality_def normalize_start_zero_sum)
qed

theorem start_divisions_witness:
  "\<not> is_multigraph_type empty_graph
   \<and> adj empty_graph = []
   \<and> eigenvector_centrality empty_graph 100 (1 / 1000000) None = (None, Inl ZeroDivisionError)
   \<and> \<not> is_multigraph_type path2
   \<and> sum_list (values_of [(0::nat, 1), (1, -1)]) = (0::real)
   \<and> eigenvector_centrality path2 100 (1 / 1000000) (Some [(0, 1), (1, -1)])
        = (Some [(0, 1), (1, -1)], Inl ZeroDivisionError)"
proof -
  have g: "\<not> is_multigraph_type empty_graph"
    by (simp add: is_multigraph_type_def empty_graph_def)
  have p: "\<not> is_multigraph_type path2"
    by (simp add: is_multigraph_type_def path2_def)
  have a: "adj empty_graph = []"
    by (simp add: empty_graph_def)
  have z: "sum_list (values_of [(0::nat, 1), (1, -1)]) = (0::real)"
    by (simp add: values_of_def)
  show ?thesis
    using g p a z start_divisions [OF g, of 100 "1 / 1000000" "[]"]
      start_divisions [OF p, of 100 "1 / 1000000" "[(0, 1), (1, -1)]"]
    by simp
qed

subsection \<open>The caller's starting vector\<close>

lemma scale_one: "scale 1 d = d"
  by (induction d) (auto simp: scale_def)

lemma scale_fixed_zero:
  "scale s d = d \<Longrightarrow> s \<noteq> 1 \<Longrightarrow> v \<in> set (values_of d) \<Longrightarrow> v = 0"
  by (induction d) (auto simp: scale_def values_of_def)

lemma sum_list_all_zero: "\<forall>v \<in> set vs. v = 0 \<Longrightarrow> sum_list vs = (0::real)"
  by (induction vs) auto

lemma caller_dict_after:
  "\<not> is_multigraph_type G \<Longrightarrow> sum_list (values_of x) \<noteq> 0 \<Longrightarrow>
     fst (eigenvector_centrality G max_iter tol (Some x))
       = Some (scale (1 / sum_list (values_of x)) x)"
  by (simp add: eigenvector_centrality_def normalize_start_nonzero_sum)

text \<open>
  C9, as stated, fails in its conclusion: a starting vector whose values already sum to 1
  is scaled by 1 and holds its original values after the call.
\<close>

theorem normalized_nstart_unchanged:
  "fst (eigenvector_centrality path2 100 (1 / 1000000) (Some [(0, 1 / 2), (1, 1 / 2)]))
     = Some [(0, 1 / 2), (1, 1 / 2)]"
proof -
  have "\<not> is_multigraph_type path2"
    by (simp add: is_multigraph_type_def path2_def)
  moreover have "sum_list (values_of [(0::nat, 1 / 2), (1, 1 / 2)]) = (1::real)"
    by (simp add: values_of_def)
  ultimately show ?thesis
    by (simp add: caller_dict_after scale_one)
qed

text \<open>
  C9, amended: a supplied starting vector is used through the caller's own dictionary, not
  a copy. When its values have a sum other than 0, the dictionary holds, once the call has
  ended (by a return or by an exception of the loop), every original value multiplied by
  1/sum; it differs from what the caller passed exactly when that sum is not 1.
\<close>

theorem nstart_mutated:
  assumes "\<not> is_multigraph_type G" and "sum_list (values_of x) \<noteq> 0"
  shows "fst (eigenvector_centrality G max_iter tol (Some x))
           = Some (scale (1 / sum_list (values_of x)) x)
       \<and> (fst (eigenvector_centrality G max_iter tol (Some x)) = Some x
            \<longleftrightarrow> sum_list (values_of x) = 1)"
proof -
  let ?s = "sum_list (values_of x)"
  have after: "fst (eigenvector_centrality G max_iter tol (Some x)) = Some (scale (1 / ?s) x)"
    using assms by (rule caller_dict_after)
  have "scale (1 / ?s) x = x \<longleftrightarrow> ?s = 1"
  proof
    assume fixed: "scale (1 / ?s) x = x"
    show "?s = 1"
    proof (rule ccontr)
      assume "?s \<noteq> 1"
      with assms(2) have "1 / ?s \<noteq> 1" by simp
      with fixed have "\<forall>v \<in> set (values_of x). v = 0"
        using scale_fixed_zero by blast
      then have "?s = 0"
        by (rule sum_list_all_zero)
      with assms(2) show False by simp
    qed
  next
    assume "?s = 1"
    then show "scale (1 / ?s) x = x" by (simp add: scale_one)
  qed
  with after show ?thesis by simp
qed

theorem nstart_mutated_witness:
  "\<not> is_multigraph_type path2
   \<and> sum_list (values_of [(0::nat, 1), (1, 3)]) \<noteq> (0::real)
   \<and> fst (eigenvector_centrality path2 100 (1 / 1000000) (Some [(0, 1), (1, 3)]))
        = Some [(0, 1 / 4), (1, 3 / 4)]
   \<and> fst (eigenvector_centrality path2 100 (1 / 1000000) (Some [(0, 1), (1, 3)]))
        \<noteq> Some [(0, 1), (1, 3)]"
proof -
  have p: "\<not> is_multigraph_type path2"
    by (simp add: is_multigraph_type_def path2_def)
  have s: "sum_list (values_of [(0::nat, 1), (1, 3)]) \<noteq> (0::real)"
    by (simp add: values_of_def)
  show ?thesis
    using p s nstart_mutated [OF p s, of 100 "1 / 1000000"]
    by (simp add: scale_def values_of_def)
qed

subsection \<open>One pass of the loop\<close>

lemma getitem_Inr: "getitem d k = Inr v \<longleftrightarrow> map_of d k = Some v"
  by (simp add: getitem_def split: option.splits)

lemma setitem_twice: "setitem (setitem d k a) k b = setitem d k b"
  by (induction d) auto

lemma map_of_setitem: "map_of (setitem d k a) = (map_of d)(k \<mapsto> a)"
  by (induction d) (auto simp: fun_eq_iff)

lemma setitem_same: "map_of d k = Some a \<Longrightarrow> setitem d k a = d"
  by (induction d) (auto split: if_splits)

lemma setitem_append_fresh:
  "k \<notin> fst ` set d1 \<Longrightarrow> setitem (d1 @ (k, a) # d2) k b = d1 @ (k, b) # d2"
  by (induction d1) auto

text \<open>The attribute lookup \<open>get('weight', 1)\<close> of the code yields the weight of the
  specification.\<close>

lemma map_of_weight: "map_of a ''weight'' = specified_weight a"
  by (induction a) auto

lemma get_weight_spec:
  "get_weight a = (if specified_weight a = None then 1 else the (specified_weight a))"
  by (auto simp: get_weight_def map_of_weight split: option.splits)

lemma weight_of_edge:
  "map_of (adj G) n = Some nbrs \<Longrightarrow>
     (case map_of nbrs b of None \<Rightarrow> 0 | Some a \<Rightarrow> get_weight a) = weight G n b"
  by (simp add: weight_def get_weight_spec split: option.splits)

text \<open>The inner loop adds the weighted entries of the neighbours to the entry of \<open>n\<close>.\<close>

lemma inner_loop_result:
  "inner_loop xl n nbrs ks d = Inr d' \<Longrightarrow> map_of d n = Some a \<Longrightarrow>
     d' = setitem d n
            (a + (\<Sum>b\<leftarrow>ks. entry xl b *
                          (case map_of nbrs b of None \<Rightarrow> 0 | Some w \<Rightarrow> get_weight w)))"
proof (induction ks arbitrary: d a)
  case Nil
  then show ?case by (simp add: setitem_same)
next
  case (Cons b ks)
  from Cons.prems obtain v w where
    v: "map_of xl b = Some v" and w: "map_of nbrs b = Some w"
    and rest: "inner_loop xl n nbrs ks (setitem d n (a + v * get_weight w)) = Inr d'"
    by (auto simp: getitem_def split: option.splits sum.splits)
  have "map_of (setitem d n (a + v * get_weight w)) n = Some (a + v * get_weight w)"
    by (simp add: map_of_setitem)
  from Cons.IH [OF rest this] show ?case
    by (simp add: setitem_twice v w entry_def add.assoc)
qed

lemma outer_loop_result:
  "outer_loop G xl ns (pre @ fromkeys ns 0) = Inr d' \<Longrightarrow> distinct (keys pre @ ns) \<Longrightarrow>
     d' = pre @ map (\<lambda>n. (n, spec_product G xl n)) ns"
proof (induction ns arbitrary: pre)
  case Nil
  then show ?case by (simp add: fromkeys_def)
next
  case (Cons n ns)
  let ?d = "pre @ (n, 0) # fromkeys ns 0"
  from Cons.prems(1) obtain nbrs d1 where
    nbrs: "map_of (adj G) n = Some nbrs"
    and inner: "inner_loop xl n nbrs (keys nbrs) ?d = Inr d1"
    and rest: "outer_loop G xl ns d1 = Inr d'"
    by (auto simp: fromkeys_def getitem_def split: option.splits sum.splits)
  have fresh: "n \<notin> fst ` set pre"
    using Cons.prems(2) by (auto simp: keys_def)
  then have "map_of pre n = None"
    by (simp add: map_of_eq_None_iff)
  then have "map_of ?d n = Some 0"
    by (simp add: map_add_def)
  from inner_loop_result [OF inner this]
  have d1: "d1 = (pre @ [(n, spec_product G xl n)]) @ fromkeys ns 0"
    using fresh nbrs
    by (simp add: setitem_append_fresh spec_product_def neighbors_def weight_of_edge [OF nbrs])
  have "distinct (keys (pre @ [(n, spec_product G xl n)]) @ ns)"
    using Cons.prems(2) by (auto simp: keys_def)
  from Cons.IH [OF rest [unfolded d1] this] show ?case by simp
qed

lemma norm_factor_spec: "norm_factor y = spec_scale_factor (values_of y)"
  by (simp add: norm_factor_def spec_scale_factor_def l2_norm_def py_div_def)

lemma keys_fromkeys: "keys (fromkeys ks v) = ks"
  by (simp add: keys_def fromkeys_def comp_def)

lemma iteration_result:
  assumes "iteration G st = Inr (st', err)" and "distinct (keys (st_x st))"
  shows "st_xlast st' = st_x st"
    and "st_x st' =
           map (\<lambda>n. (n, spec_product G (st_x st) n *
                         spec_scale_factor (map (spec_product G (st_x st)) (keys (st_x st)))))
             (keys (st_x st))"
proof -
  let ?xl = "st_x st"
  let ?ks = "keys ?xl"
  from assms(1) obtain y ds where
    y: "outer_loop G ?xl ?ks (fromkeys ?ks 0) = Inr y"
    and st': "st' = \<lparr>st_x = scale (norm_factor y) y, st_xlast = ?xl\<rparr>"
    by (auto simp: iteration_def Let_def keys_fromkeys split: sum.splits)
  from outer_loop_result [of G ?xl ?ks "[]" y] y assms(2)
  have yeq: "y = map (\<lambda>n. (n, spec_product G ?xl n)) ?ks"
    by (simp add: keys_def)
  show "st_xlast st' = st_x st" by (simp add: st')
  have "values_of y = map (spec_product G ?xl) ?ks"
    by (simp add: yeq values_of_def comp_def)
  then show "st_x st' =
           map (\<lambda>n. (n, spec_product G ?xl n *
                         spec_scale_factor (map (spec_product G ?xl) ?ks))) ?ks"
    by (simp add: st' norm_factor_spec) (simp add: yeq scale_def)
qed

lemma keys_setitem: "map_of d k \<noteq> None \<Longrightarrow> keys (setitem d k a) = keys d"
  by (induction d) (auto simp: keys_def)

lemma map_of_keys: "map_of d k \<noteq> None \<longleftrightarrow> k \<in> set (keys d)"
  by (simp add: keys_def map_of_eq_None_iff)

lemma inner_loop_succeeds:
  "n \<in> set (keys d) \<Longrightarrow> set ks \<subseteq> set (keys xl) \<Longrightarrow> set ks \<subseteq> set (keys nbrs) \<Longrightarrow>
     \<exists>d'. inner_loop xl n nbrs ks d = Inr d' \<and> keys d' = keys d"
proof (induction ks arbitrary: d)
  case Nil
  then show ?case by simp
next
  case (Cons b ks)
  from Cons.prems obtain old v w where
    l: "map_of d n = Some old" "map_of xl b = Some v" "map_of nbrs b = Some w"
    using map_of_keys [of d n] map_of_keys [of xl b] map_of_keys [of nbrs b] by auto
  let ?d = "setitem d n (old + v * get_weight w)"
  have k: "keys ?d = keys d"
    using l(1) by (simp add: keys_setitem)
  with Cons.prems have "n \<in> set (keys ?d)" by simp
  from Cons.IH [OF this] Cons.prems(2,3) k l show ?case
    by (simp add: getitem_def)
qed

lemma outer_loop_succeeds:
  "set ns \<subseteq> set (keys d) \<Longrightarrow>
   \<forall>n \<in> set ns. case map_of (adj G) n of
                   None \<Rightarrow> False
                 | Some nbrs \<Rightarrow> set (keys nbrs) \<subseteq> set (keys xl) \<Longrightarrow>
     \<exists>d'. outer_loop G xl ns d = Inr d'"
proof (induction ns arbitrary: d)
  case Nil
  then show ?case by simp
next
  case (Cons n ns)
  from Cons.prems(2) obtain nbrs where
    nbrs: "map_of (adj G) n = Some nbrs" "set (keys nbrs) \<subseteq> set (keys xl)"
    by (auto split: option.splits)
  from Cons.prems(1) have "n \<in> set (keys d)" by simp
  from inner_loop_succeeds [OF this nbrs(2) subset_refl]
  obtain d1 where d1: "inner_loop xl n nbrs (keys nbrs) d = Inr d1" "keys d1 = keys d"
    by blast
  from Cons.prems have "\<exists>d'. outer_loop G xl ns d1 = Inr d'"
    by (intro Cons.IH) (auto simp: d1(2))
  with nbrs(1) d1(1) show ?case
    by (simp add: getitem_def)
qed

lemma abs_diffs_result:
  "set ns \<subseteq> set (keys d) \<Longrightarrow> set ns \<subseteq> set (keys xl) \<Longrightarrow>
     abs_diffs d xl ns = Inr (map (\<lambda>n. \<bar>entry d n - entry xl n\<bar>) ns)"
proof (induction ns)
  case Nil
  then show ?case by simp
next
  case (Cons n ns)
  from Cons.prems obtain a b where "map_of d n = Some a" "map_of xl n = Some b"
    using map_of_keys [of d n] map_of_keys [of xl n] by auto
  with Cons show ?case
    by (simp add: getitem_def entry_def)
qed

lemma keys_scale: "keys (scale s d) = keys d"
  by (induction d) (auto simp: keys_def scale_def)

lemma keys_product: "keys (map (\<lambda>n. (n, f n)) ns) = ns"
  by (simp add: keys_def comp_def)

lemma iteration_succeeds:
  assumes "fits G (st_x st)"
  shows "\<exists>st' err. iteration G st = Inr (st', err)"
proof -
  let ?xl = "st_x st"
  let ?ks = "keys ?xl"
  have "\<exists>y. outer_loop G ?xl ?ks (fromkeys ?ks 0) = Inr y"
    using assms by (intro outer_loop_succeeds) (auto simp: fits_def keys_fromkeys)
  then obtain y where y: "outer_loop G ?xl ?ks (fromkeys ?ks 0) = Inr y" ..
  from outer_loop_result [of G ?xl ?ks "[]" y] y assms
  have "y = map (\<lambda>n. (n, spec_product G ?xl n)) ?ks"
    by (simp add: keys_def fits_def)
  then have "keys (scale (norm_factor y) y) = ?ks"
    by (simp add: keys_scale keys_product)
  then have "abs_diffs (scale (norm_factor y) y) ?xl (keys (scale (norm_factor y) y)) =
      Inr (map (\<lambda>n. \<bar>entry (scale (norm_factor y) y) n - entry ?xl n\<bar>) ?ks)"
    by (simp add: abs_diffs_result)
  with y show ?thesis
    by (simp add: iteration_def Let_def keys_fromkeys)
qed

text \<open>
  C8: one pass of the loop over a vector \<open>previous\<close> (a dictionary, so with distinct keys)
  yields a new vector whenever \<open>previous\<close> fits the graph, and whenever it yields one, the
  new vector holds for every node \<open>n\<close> the sum over the neighbours \<open>b\<close> of \<open>n\<close> of
  \<open>previous[b] * weight(n, b)\<close>, the weight being 1 where the edge has none, multiplied by
  1 over the Euclidean norm of these sums, or by 1 when that norm is zero. The vector read as
  \<open>previous\<close> is the one the pass started from, unchanged.
\<close>

theorem iteration_computes_normalised_product:
  assumes "distinct (keys (st_x st))"
  shows "(fits G (st_x st) \<longrightarrow> (\<exists>st' err. iteration G st = Inr (st', err)))
       \<and> (\<forall>st' err. iteration G st = Inr (st', err) \<longrightarrow>
            st_xlast st' = st_x st \<and>
            st_x st' =
              map (\<lambda>n. (n, spec_product G (st_x st) n *
                            spec_scale_factor
                              (map (spec_product G (st_x st)) (keys (st_x st)))))
                (keys (st_x st)))"
  using assms iteration_succeeds [of G st] iteration_result [of G st] by blast

lemma sqrt_36_25: "sqrt (36 / 25) = 6 / 5"
  by (rule real_sqrt_unique) (simp_all add: power2_eq_square)

theorem iteration_computes_normalised_product_witness:
  "distinct (keys [(0::int, 1 / 5 :: real), (1, 2 / 5), (2, 2 / 5)])
   \<and> fits weighted_path3 [(0, 1 / 5), (1, 2 / 5), (2, 2 / 5)]
   \<and> [weight weighted_path3 0 1, weight weighted_path3 1 0,
       weight weighted_path3 1 2, weight weighted_path3 2 1] = [2, 2, 1, 1]
   \<and> map (spec_product weighted_path3 [(0, 1 / 5), (1, 2 / 5), (2, 2 / 5)]) [0, 1, 2]
       = [4 / 5, 4 / 5, 2 / 5]
   \<and> spec_scale_factor [4 / 5, 4 / 5, 2 / 5] = 5 / 6
   \<and> iteration weighted_path3
         \<lparr>st_x = [(0, 1 / 5), (1, 2 / 5), (2, 2 / 5)], st_xlast = []\<rparr>
       = Inr (\<lparr>st_x = [(0, 2 / 3), (1, 2 / 3), (2, 1 / 3)],
               st_xlast = [(0, 1 / 5), (1, 2 / 5), (2, 2 / 5)]\<rparr>, 4 / 5)"
proof -
  let ?x = "[(0::int, 1 / 5 :: real), (1, 2 / 5), (2, 2 / 5)]"
  let ?st = "\<lparr>st_x = ?x, st_xlast = []\<rparr>"
  have d: "distinct (keys (st_x ?st))"
    by (simp add: keys_def)
  have f: "fits weighted_path3 ?x"
    by (simp add: fits_def keys_def weighted_path3_def)
  have w: "[weight weighted_path3 0 1, weight weighted_path3 1 0,
            weight weighted_path3 1 2, weight weighted_path3 2 1] = [2, 2, 1, 1]"
    by (simp add: weight_def weighted_path3_def)
  have p: "map (spec_product weighted_path3 ?x) [0, 1, 2] = [4 / 5, 4 / 5, 2 / 5]"
    by (simp add: spec_product_def neighbors_def weight_def entry_def keys_def
        weighted_path3_def)
  have s: "spec_scale_factor [4 / 5, 4 / 5, 2 / 5] = 5 / 6"
    by (simp add: spec_scale_factor_def l2_norm_def power2_eq_square sqrt_36_25)
  from iteration_computes_normalised_product [OF d, of weighted_path3] f
  obtain st' err where it: "iteration weighted_path3 ?st = Inr (st', err)"
    by auto
  have pv: "spec_product weighted_path3 ?x 0 = 4 / 5"
    "spec_product weighted_path3 ?x 1 = 4 / 5"
    "spec_product weighted_path3 ?x 2 = 2 / 5"
    using p by simp_all
  from it iteration_computes_normalised_product [OF d, of weighted_path3]
  have "st_xlast st' = ?x"
    and "st_x st' = map (\<lambda>n. (n, spec_product weighted_path3 ?x n *
                     spec_scale_factor (map (spec_product weighted_path3 ?x) (keys ?x))))
                   (keys ?x)"
    by auto
  then have st': "st' = \<lparr>st_x = [(0, 2 / 3), (1, 2 / 3), (2, 1 / 3)], st_xlast = ?x\<rparr>"
    by (cases st') (simp add: keys_def pv s)
  have e: "iteration weighted_path3 ?st
       = Inr (\<lparr>st_x = [(0, 2 / 3), (1, 2 / 3), (2, 1 / 3)], st_xlast = ?x\<rparr>, 4 / 5)"
    by (simp add: iteration_def Let_def fromkeys_def keys_def getitem_def weighted_path3_def
        get_weight_def norm_factor_def values_of_def py_div_def scale_def power2_eq_square
        sqrt_36_25)
  show ?thesis
    using d f w p s e it st' by simp
qed

subsection \<open>The norm of the returned vector\<close>

lemma power_loop_returns:
  "power_loop G tol k st = Inr r \<Longrightarrow> \<exists>s s' err. iteration G s = Inr (s', err) \<and> r = st_x s'"
proof (induction k arbitrary: st)
  case 0
  then show ?case by simp
next
  case (Suc k)
  then show ?case
    by (auto split: sum.splits prod.splits if_splits)
qed

lemma iteration_scaled:
  "iteration G st = Inr (st', err) \<Longrightarrow> \<exists>y. st_x st' = scale (norm_factor y) y"
  by (auto simp: iteration_def Let_def split: sum.splits)

lemma values_of_scale: "values_of (scale s d) = map (\<lambda>v. v * s) (values_of d)"
  by (induction d) (auto simp: values_of_def scale_def)

lemma sum_squares_scaled:
  "sum_list (map (\<lambda>v. v ^ 2) (map (\<lambda>v. v * s) vs)) = s ^ 2 * sum_list (map (\<lambda>v. v ^ 2) vs)"
  for s :: real
  by (induction vs) (simp_all add: power_mult_distrib algebra_simps)

lemma sum_squares_nonneg: "0 \<le> sum_list (map (\<lambda>v. v ^ 2) vs)" for vs :: "real list"
  by (induction vs) simp_all

lemma sum_squares_zero:
  "sum_list (map (\<lambda>v. v ^ 2) vs) = 0 \<longleftrightarrow> (\<forall>v \<in> set vs. v = 0)" for vs :: "real list"
proof (induction vs)
  case Nil
  then show ?case by simp
next
  case (Cons a vs)
  have "a ^ 2 + sum_list (map (\<lambda>v. v ^ 2) vs) = 0
      \<longleftrightarrow> a ^ 2 = 0 \<and> sum_list (map (\<lambda>v. v ^ 2) vs) = 0"
    using sum_squares_nonneg [of vs] by (intro add_nonneg_eq_0_iff) simp_all
  with Cons show ?case by simp
qed

lemma l2_norm_zero: "l2_norm vs = 0 \<longleftrightarrow> (\<forall>v \<in> set vs. v = 0)"
  by (simp add: l2_norm_def sum_squares_zero)

lemma l2_norm_nonneg: "0 \<le> l2_norm vs"
  by (simp add: l2_norm_def sum_squares_nonneg)

lemma l2_norm_scaled: "l2_norm (map (\<lambda>v. v * s) vs) = \<bar>s\<bar> * l2_norm vs"
  unfolding l2_norm_def sum_squares_scaled by (simp add: real_sqrt_mult)

lemma l2_norm_normalised:
  "l2_norm (values_of (scale (norm_factor y) y)) =
     (if \<forall>v \<in> set (values_of y). v = 0 then 0 else 1)"
proof -
  let ?n = "l2_norm (values_of y)"
  have eq: "l2_norm (values_of (scale (norm_factor y) y)) = \<bar>norm_factor y\<bar> * ?n"
    unfolding values_of_scale by (rule l2_norm_scaled)
  show ?thesis
  proof (cases "?n = 0")
    case True
    with eq show ?thesis by (simp add: l2_norm_zero)
  next
    case False
    then have pos: "0 < ?n"
      using l2_norm_nonneg [of "values_of y"] by simp
    have "norm_factor y = 1 / ?n"
      using False by (simp add: norm_factor_spec spec_scale_factor_def)
    with eq pos have "l2_norm (values_of (scale (norm_factor y) y)) = 1" by simp
    moreover have "\<not> (\<forall>v \<in> set (values_of y). v = 0)"
      using False by (simp add: l2_norm_zero)
    ultimately show ?thesis by simp
  qed
qed

lemma scaled_all_zero:
  "(\<forall>v \<in> set (values_of (scale (norm_factor y) y)). v = 0) \<longleftrightarrow> (\<forall>v \<in> set (values_of y). v = 0)"
proof -
  have "norm_factor y \<noteq> 0"
    by (simp add: norm_factor_spec spec_scale_factor_def)
  then show ?thesis
    by (simp add: values_of_scale)
qed

subsection \<open>Runs on the path with two nodes\<close>

lemma sqrt_half_bound: "sqrt (1 / 2) \<le> 3 / 4"
  by (rule real_le_lsqrt) (simp_all add: power2_eq_square)

lemma first_pass_error_path2: "\<not> 500000 / sqrt (1 / 2) < 500001"
proof -
  have pos: "0 < sqrt (1 / 2 :: real)" by simp
  have "500001 * sqrt (1 / 2) \<le> 500001 * (3 / 4)"
    using sqrt_half_bound by simp
  then have "500001 * sqrt (1 / 2) \<le> 500000" by simp
  then have "500001 \<le> 500000 / sqrt (1 / 2)"
    using pos by (simp add: pos_le_divide_eq)
  then show ?thesis by simp
qed

lemma half_sqrt_half: "1 / (sqrt (1 / 2) * 2) = sqrt (1 / 2)"
proof -
  have "sqrt (1 / 2) * sqrt (1 / 2) = 1 / 2"
    by (simp del: real_sqrt_mult_self add: real_sqrt_mult_self [of "1 / 2"])
  then show ?thesis
    by (simp add: field_simps)
qed

lemma path2_two_passes:
  "power_loop path2 (1 / 1000000) (Suc (Suc k))
     \<lparr>st_x = [(0, 1 / 2), (1, 1 / 2)], st_xlast = [(0, 1 / 2), (1, 1 / 2)]\<rparr>
     = Inr [(0, sqrt (1 / 2)), (1, sqrt (1 / 2))]"
  by (simp add: path2_def keys_def values_of_def scale_def iteration_def
      fromkeys_def getitem_def norm_factor_def number_of_nodes_def Let_def py_div_def
      get_weight_def power2_eq_square first_pass_error_path2 half_sqrt_half)

lemma path2_run:
  "snd (eigenvector_centrality path2 100 (1 / 1000000) None)
     = Inr [(0, sqrt (1 / 2)), (1, sqrt (1 / 2))]"
proof -
  have "nat 100 = Suc (Suc 98)" by simp
  then show ?thesis
    using path2_two_passes [of 98]
    by (simp add: eigenvector_centrality_def is_multigraph_type_def keys_def len_def
      py_div_def normalize_start_def values_of_def scale_def path2_def del: nat_numeral)
qed

text \<open>
  C1, as stated, fails where it includes the zero-norm guard: on a graph with one node and
  no edge the call returns, in its second pass, the all-zero vector, whose norm is 0.
\<close>

theorem edgeless_returns_zero_vector:
  "snd (eigenvector_centrality single_node 2 (1 / 1000000) None) = Inr [(0, 0)]
   \<and> l2_norm (values_of [(0::nat, 0::real)]) \<noteq> 1"
  by (simp add: numeral_2_eq_2 single_node_def eigenvector_centrality_def is_multigraph_type_def
      keys_def len_def py_div_def normalize_start_def values_of_def scale_def iteration_def
      fromkeys_def getitem_def norm_factor_def number_of_nodes_def l2_norm_def Let_def)

text \<open>
  C1, amended: whenever \<open>eigenvector_centrality\<close> returns, the Euclidean norm of the
  returned vector is 1 (in exact arithmetic), unless the returned vector is all-zero, which
  is the case exactly when the last pass took the zero-norm guard; then the norm is 0.
\<close>

theorem returned_norm:
  assumes "snd (eigenvector_centrality G max_iter tol nstart) = Inr r"
  shows "l2_norm (values_of r) = (if \<forall>v \<in> set (values_of r). v = 0 then 0 else 1)"
proof -
  from assms obtain k st where "power_loop G tol k st = Inr r"
    by (auto simp: eigenvector_centrality_def split: if_splits sum.splits)
  then obtain s s' err where "iteration G s = Inr (s', err)" and r: "r = st_x s'"
    using power_loop_returns by blast
  then obtain y where "st_x s' = scale (norm_factor y) y"
    using iteration_scaled by blast
  with r show ?thesis
    by (simp only: l2_norm_normalised scaled_all_zero)
qed

theorem returned_norm_witness:
  "snd (eigenvector_centrality path2 100 (1 / 1000000) None)
     = Inr [(0, sqrt (1 / 2)), (1, sqrt (1 / 2))]
   \<and> l2_norm (values_of [(0::nat, sqrt (1 / 2)), (1, sqrt (1 / 2))]) = 1"
  using path2_run returned_norm [OF path2_run] by (simp add: values_of_def)

subsection \<open>The convergence error\<close>

text \<open>
  C3 (the code falls short of it): the error raised after the last pass should carry the
  number of passes made. On the path with two nodes, one pass and tolerance \<open>1e-6\<close>, the
  call raises NetworkXError with the text of line 100-101 as it stands; the \<open>%d\<close> is not
  replaced by 1, because the quotes of the literal close after \<open>%(i+1))\<close>.
\<close>

theorem convergence_error_has_no_count:
  "snd (eigenvector_centrality path2 1 (1 / 1000000) None)
     = Inl (NetworkXError
         (''eigenvector_centrality(): '' @ [CHR 0x0A] @
          ''power iteration failed to converge in %d iterations.'' @ [CHR 0x22] @
          ''%(i+1))''))"
  by (simp add: path2_def eigenvector_centrality_def is_multigraph_type_def
      keys_def len_def py_div_def normalize_start_def values_of_def scale_def iteration_def
      fromkeys_def getitem_def norm_factor_def number_of_nodes_def Let_def
      get_weight_def power2_eq_square first_pass_error_path2 convergence_message_def)

subsection \<open>Graphs without edges\<close>

lemma no_edges_lookup:
  "has_no_edges G \<Longrightarrow> n \<in> set (keys (adj G)) \<Longrightarrow> map_of (adj G) n = Some []"
proof -
  assume a: "has_no_edges G" "n \<in> set (keys (adj G))"
  then obtain nbrs where m: "map_of (adj G) n = Some nbrs"
    using map_of_keys [of "adj G" n] by auto
  then have "(n, nbrs) \<in> set (adj G)" by (rule map_of_SomeD)
  with a(1) have "nbrs = []"
    by (auto simp: has_no_edges_def list_all_iff)
  with m show ?thesis by simp
qed

lemma outer_loop_no_edges:
  "has_no_edges G \<Longrightarrow> set ns \<subseteq> set (keys (adj G)) \<Longrightarrow> outer_loop G xl ns d = Inr d"
  by (induction ns) (simp_all add: no_edges_lookup getitem_def keys_def)

lemma norm_factor_zero_vector: "norm_factor (fromkeys ks 0) = 1"
  by (simp add: norm_factor_spec spec_scale_factor_def l2_norm_zero values_of_def fromkeys_def)

lemma entry_fromkeys: "n \<in> set ks \<Longrightarrow> entry (fromkeys ks v) n = v"
  by (induction ks) (auto simp: entry_def fromkeys_def)

lemma entry_const: "n \<in> set ks \<Longrightarrow> entry (map (\<lambda>n. (n, c)) ks) n = c"
  using entry_fromkeys [of n ks c] by (simp add: fromkeys_def)

lemma iteration_no_edges:
  assumes "has_no_edges G" and "keys (st_x st) = keys (adj G)"
  shows "iteration G st =
           Inr (\<lparr>st_x = fromkeys (keys (adj G)) 0, st_xlast = st_x st\<rparr>,
                \<Sum>n\<leftarrow>keys (adj G). \<bar>entry (st_x st) n\<bar>)"
proof -
  let ?ks = "keys (adj G)"
  let ?z = "fromkeys ?ks (0::real)"
  have y: "outer_loop G (st_x st) ?ks ?z = Inr ?z"
    using assms(1) by (simp add: outer_loop_no_edges)
  have "abs_diffs ?z (st_x st) ?ks = Inr (map (\<lambda>n. \<bar>entry ?z n - entry (st_x st) n\<bar>) ?ks)"
    by (rule abs_diffs_result) (simp_all add: keys_fromkeys assms(2))
  moreover have "map (\<lambda>n. \<bar>entry ?z n - entry (st_x st) n\<bar>) ?ks
      = map (\<lambda>n. \<bar>entry (st_x st) n\<bar>) ?ks"
    by (simp add: entry_fromkeys)
  ultimately show ?thesis
    using y by (simp add: iteration_def Let_def assms(2) keys_fromkeys norm_factor_zero_vector
        scale_one)
qed

lemma default_vector:
  assumes "adj G \<noteq> []"
  shows "default_start (keys (adj G)) (len G)
           = Inr (map (\<lambda>n. (n, 1 / real (len G))) (keys (adj G)))"
    and "normalize_start (map (\<lambda>n. (n, 1 / real (len G))) (keys (adj G)))
           = Inr (map (\<lambda>n. (n, 1 / real (len G))) (keys (adj G)))"
proof -
  have pos: "0 < len G"
    using assms by (simp add: len_def)
  then show "default_start (keys (adj G)) (len G)
           = Inr (map (\<lambda>n. (n, 1 / real (len G))) (keys (adj G)))"
    by (rule default_start_eq)
  have "sum_list (values_of (map (\<lambda>n. (n, 1 / real (len G))) (keys (adj G)))) = 1"
    using pos by (simp add: values_of_def comp_def len_def keys_def sum_list_triv)
  then show "normalize_start (map (\<lambda>n. (n, 1 / real (len G))) (keys (adj G)))
           = Inr (map (\<lambda>n. (n, 1 / real (len G))) (keys (adj G)))"
    by (simp add: normalize_start_def py_div_def scale_one)
qed

lemma first_pass_no_edges:
  assumes "has_no_edges G" and "adj G \<noteq> []"
  shows "iteration G \<lparr>st_x = map (\<lambda>n. (n, 1 / real (len G))) (keys (adj G)), st_xlast = xl\<rparr>
           = Inr (\<lparr>st_x = fromkeys (keys (adj G)) 0,
                   st_xlast = map (\<lambda>n. (n, 1 / real (len G))) (keys (adj G))\<rparr>, 1)"
proof -
  let ?ks = "keys (adj G)"
  let ?x = "map (\<lambda>n. (n, 1 / real (len G))) ?ks"
  have "(\<Sum>n\<leftarrow>?ks. \<bar>entry ?x n\<bar>) = (\<Sum>n\<leftarrow>?ks. 1 / real (len G))"
    by (rule arg_cong [where f = sum_list]) (simp add: entry_const)
  also have "\<dots> = 1"
    using assms(2) by (simp add: sum_list_triv len_def keys_def comp_def)
  finally show ?thesis
    using iteration_no_edges [OF assms(1), of "\<lparr>st_x = ?x, st_xlast = xl\<rparr>"]
    by (simp add: keys_product)
qed

lemma second_pass_no_edges:
  assumes "has_no_edges G"
  shows "iteration G \<lparr>st_x = fromkeys (keys (adj G)) 0, st_xlast = xl\<rparr>
           = Inr (\<lparr>st_x = fromkeys (keys (adj G)) 0, st_xlast = fromkeys (keys (adj G)) 0\<rparr>, 0)"
proof -
  let ?ks = "keys (adj G)"
  have "(\<Sum>n\<leftarrow>?ks. \<bar>entry (fromkeys ?ks (0::real)) n\<bar>) = (\<Sum>n\<leftarrow>?ks. 0)"
    by (rule arg_cong [where f = sum_list]) (simp add: entry_fromkeys)
  then show ?thesis
    using iteration_no_edges [OF assms, of "\<lparr>st_x = fromkeys ?ks 0, st_xlast = xl\<rparr>"]
    by (simp add: keys_fromkeys)
qed

lemma power_loop_no_edges:
  assumes "has_no_edges G" and "adj G \<noteq> []" and "0 < tol"
  shows "power_loop G tol k
           \<lparr>st_x = map (\<lambda>n. (n, 1 / real (len G))) (keys (adj G)), st_xlast = xl\<rparr>
         = (if 2 \<le> k \<or> (1 \<le> k \<and> 1 < real (number_of_nodes G) * tol)
            then Inr (fromkeys (keys (adj G)) 0)
            else Inl (NetworkXError convergence_message))"
proof -
  have small: "0 < real (number_of_nodes G) * tol"
    using assms(2,3) by (simp add: number_of_nodes_def)
  consider "k = 0" | "k = Suc 0" | j where "k = Suc (Suc j)"
    by (cases k rule: nat.exhaust [case_product nat.exhaust]) (auto, metis nat.exhaust)
  then show ?thesis
  proof cases
    case 1
    then show ?thesis by simp
  next
    case 2
    then show ?thesis
      by (simp add: first_pass_no_edges [OF assms(1,2)])
  next
    case 3
    then show ?thesis
      using small
      by (simp add: first_pass_no_edges [OF assms(1,2)] second_pass_no_edges [OF assms(1)])
  qed
qed

text \<open>
  C4, as stated, fails: on a graph with one node and no edge, with one pass allowed and
  tolerance \<open>1e-6\<close>, the first pass yields the zero vector, but its error term is the
  distance to the starting vector, 1, which is not below \<open>n*tol\<close>; the call raises the
  convergence error.
\<close>

theorem edgeless_first_pass_fails:
  "snd (eigenvector_centrality single_node 1 (1 / 1000000) None)
     = Inl (NetworkXError convergence_message)"
  by (simp add: single_node_def eigenvector_centrality_def is_multigraph_type_def
      keys_def len_def py_div_def normalize_start_def values_of_def scale_def iteration_def
      fromkeys_def getitem_def norm_factor_def number_of_nodes_def l2_norm_def Let_def)

text \<open>
  C4, amended: for every graph with at least one node and no edge, every positive tolerance
  and the default starting vector, the first multiplication yields the all-zero vector and
  the zero-norm guard keeps it unscaled; the error term of that first pass is 1. The call
  therefore returns the all-zero vector in its first pass only when \<open>1 < n*tol\<close>, and
  otherwise in its second pass, whose error term is 0; with a single pass allowed and
  \<open>n*tol \<le> 1\<close> (or with none allowed) it raises the convergence error.
\<close>

theorem no_edges_converges_in_second_pass:
  assumes "\<not> is_multigraph_type G" and "has_no_edges G" and "adj G \<noteq> []" and "0 < tol"
  shows "iteration G \<lparr>st_x = map (\<lambda>n. (n, 1 / real (len G))) (keys (adj G)),
                       st_xlast = map (\<lambda>n. (n, 1 / real (len G))) (keys (adj G))\<rparr>
           = Inr (\<lparr>st_x = fromkeys (keys (adj G)) 0,
                   st_xlast = map (\<lambda>n. (n, 1 / real (len G))) (keys (adj G))\<rparr>, 1)
       \<and> eigenvector_centrality G max_iter tol None =
           (None,
            if 2 \<le> max_iter \<or> (1 \<le> max_iter \<and> 1 < real (number_of_nodes G) * tol)
            then Inr (fromkeys (keys (adj G)) 0)
            else Inl (NetworkXError convergence_message))"
proof
  show "iteration G \<lparr>st_x = map (\<lambda>n. (n, 1 / real (len G))) (keys (adj G)),
                       st_xlast = map (\<lambda>n. (n, 1 / real (len G))) (keys (adj G))\<rparr>
           = Inr (\<lparr>st_x = fromkeys (keys (adj G)) 0,
                   st_xlast = map (\<lambda>n. (n, 1 / real (len G))) (keys (adj G))\<rparr>, 1)"
    using assms(2,3) by (rule first_pass_no_edges)
next
  have "(2 \<le> nat max_iter) = (2 \<le> max_iter)" "(1 \<le> nat max_iter) = (1 \<le> max_iter)"
    by auto
  then show "eigenvector_centrality G max_iter tol None =
           (None,
            if 2 \<le> max_iter \<or> (1 \<le> max_iter \<and> 1 < real (number_of_nodes G) * tol)
            then Inr (fromkeys (keys (adj G)) 0)
            else Inl (NetworkXError convergence_message))"
    using assms(1)
    by (simp add: eigenvector_centrality_def default_vector [OF assms(3)]
        power_loop_no_edges [OF assms(2,3,4)])
qed

theorem no_edges_converges_in_second_pass_witness:
  "\<not> is_multigraph_type single_node \<and> has_no_edges single_node \<and> adj single_node \<noteq> []
   \<and> (0::real) < 1 / 1000000
   \<and> eigenvector_centrality single_node 2 (1 / 1000000) None = (None, Inr [(0, 0)])"
proof -
  have m: "\<not> is_multigraph_type single_node"
    by (simp add: is_multigraph_type_def single_node_def)
  have e: "has_no_edges single_node"
    by (simp add: has_no_edges_def single_node_def)
  have a: "adj single_node \<noteq> []"
    by (simp add: single_node_def)
  have t: "(0::real) < 1 / 1000000" by simp
  show ?thesis
    using m e a no_edges_converges_in_second_pass [OF m e a t, of 2]
    by (simp add: fromkeys_def keys_def single_node_def)
qed

subsection \<open>The sign convention of the NumPy variant\<close>

lemma np_max_is_maximum:
  "np_max xs = Inr m \<Longrightarrow> m \<in> set xs \<and> (\<forall>v \<in> set xs. v \<le> m)"
proof -
  have f: "fold max ys y \<in> set (y # ys) \<and> (\<forall>v \<in> set (y # ys). v \<le> fold max ys y)"
    for ys and y :: real
  proof (induction ys arbitrary: y)
    case Nil
    then show ?case by simp
  next
    case (Cons a ys)
    from Cons [of "max a y"] show ?case
      by (auto simp: max_def split: if_splits)
  qed
  assume "np_max xs = Inr m"
  then obtain y ys where "xs = y # ys" "m = fold max ys y"
    by (auto simp: np_max_def split: list.splits)
  with f [of ys y] show ?thesis by simp
qed

text \<open>
  C6: whenever the loop body of \<open>eigenvector_centrality_numpy\<close> completes for a component,
  the values it writes are the entries of the selected eigenvector, each multiplied by the
  sign of the maximum entry of that eigenvector; when that maximum is exactly 0 the sign is
  0 and every value written for the component is 0.
\<close>

theorem sign_convention:
  assumes "component_step B G nodes centrality = Inr c"
  shows "\<exists>largest m.
           dominant B G nodes = Inr largest
         \<and> m \<in> set largest \<and> (\<forall>v \<in> set largest. v \<le> m)
         \<and> c = update centrality (zip nodes (map (\<lambda>v. v * sgn m) largest))
         \<and> (m = 0 \<longrightarrow> c = update centrality (zip nodes (replicate (length largest) 0)))"
proof -
  from assms obtain largest m where
    l: "dominant B G nodes = Inr largest" and m: "np_max largest = Inr m"
    and c: "c = update centrality (zip nodes (map (\<lambda>v. v * sgn m) largest))"
    by (auto simp: component_step_def split: sum.splits)
  from c have "m = 0 \<longrightarrow> c = update centrality (zip nodes (replicate (length largest) 0))"
    by (simp add: map_replicate_const)
  with l c np_max_is_maximum [OF m] show ?thesis by blast
qed

lemma step_path2:
  "component_step with_numpy path2 [0, 1] [(0, 0), (1, 0)]
     = Inr [(0, 1 / sqrt 2), (1, 1 / sqrt 2)]"
  by (simp add: component_step_def dominant_def adj_matrix_def path2_def with_numpy_def
      get_weight_def argsort_def first_index_def np_max_def sgn_if)

lemma step_zero_weight:
  "component_step negated_solver zero_weight_path2 [0, 1] [(0, 0), (1, 0)]
     = Inr [(0, 0), (1, 0)]"
  by (simp add: component_step_def dominant_def adj_matrix_def zero_weight_path2_def
      negated_solver_def get_weight_def argsort_def first_index_def np_max_def sgn_if)

lemma dominant_zero_weight:
  "dominant negated_solver zero_weight_path2 [0, 1] = Inr [0, -1]"
  by (simp add: dominant_def adj_matrix_def zero_weight_path2_def
      negated_solver_def get_weight_def argsort_def first_index_def)

theorem sign_convention_witness:
  "component_step with_numpy path2 [0, 1] [(0, 0), (1, 0)]
     = Inr [(0, 1 / sqrt 2), (1, 1 / sqrt 2)]
   \<and> component_step negated_solver zero_weight_path2 [0, 1] [(0, 0), (1, 0)]
     = Inr [(0, 0), (1, 0)]
   \<and> dominant negated_solver zero_weight_path2 [0, 1] = Inr [0, -1]
   \<and> [(0::nat, 0::real), (1, 0)] = update [(0, 0), (1, 0)] (zip [0, 1] (replicate 2 0))"
  using step_path2 step_zero_weight dominant_zero_weight
    sign_convention [OF step_path2] sign_convention [OF step_zero_weight]
  by (simp add: numeral_2_eq_2)

subsection \<open>The global normalisation of the NumPy variant\<close>

lemma linalg_norm_l2: "linalg_norm vs = l2_norm vs"
  by (simp add: linalg_norm_def l2_norm_def)

lemma values_of_divided:
  "values_of (map (\<lambda>(n, v). (n, np_divide v d)) c) = map (\<lambda>v. np_divide v d) (values_of c)"
  by (induction c) (auto simp: values_of_def)

lemma fin_values_divided:
  "d \<noteq> 0 \<Longrightarrow> fin_values (map (\<lambda>v. np_divide v d) vs) = Some (map (\<lambda>v. v * (1 / d)) vs)"
  by (induction vs) (simp_all add: np_divide_def)

lemma l2_norm_self_normalised:
  assumes "l2_norm vs \<noteq> 0"
  shows "l2_norm (map (\<lambda>v. v * (1 / l2_norm vs)) vs) = 1"
proof -
  have "0 < l2_norm vs"
    using assms l2_norm_nonneg [of vs] by simp
  then show ?thesis
    unfolding l2_norm_scaled by simp
qed

lemma zero_norm_gives_nan:
  assumes "l2_norm (values_of c) = 0" and "(n, w) \<in> set c"
  shows "np_divide w 0 = NaN"
proof -
  from assms(2) have "w \<in> set (values_of c)"
    by (force simp: values_of_def)
  with assms(1) have "w = 0"
    by (simp add: l2_norm_zero)
  then show ?thesis by (simp add: np_divide_def)
qed

lemma path2_numpy:
  "eigenvector_centrality_numpy with_numpy path2
     = Inr [(0, Fin (1 / sqrt 2)), (1, Fin (1 / sqrt 2))]"
  by (simp add: eigenvector_centrality_numpy_def with_numpy_def is_multigraph_type_def
      assemble_def fromkeys_def keys_def values_of_def path2_def component_step_def
      path2_isolated_def dominant_def adj_matrix_def get_weight_def argsort_def
      first_index_def np_max_def sgn_if linalg_norm_def np_divide_def power2_eq_square
      power_divide)

text \<open>
  C7, as stated, fails for the graph without nodes: the call returns the empty mapping,
  whose norm is 0.
\<close>

theorem empty_graph_numpy:
  "eigenvector_centrality_numpy with_numpy empty_graph = Inr []
   \<and> fin_values (values_of ([] :: (nat \<times> npfloat) list)) = Some []
   \<and> l2_norm [] \<noteq> 1"
  by (simp add: eigenvector_centrality_numpy_def with_numpy_def is_multigraph_type_def
      empty_graph_def assemble_def fromkeys_def keys_def values_of_def l2_norm_def path2_def
      path2_isolated_def)

text \<open>
  C7, amended: whenever \<open>eigenvector_centrality_numpy\<close> returns, the returned vector is
  the vector assembled from the components with every entry divided once by the Euclidean
  norm of the whole assembled vector. When that norm is not 0, every returned entry is a
  number and the Euclidean norm of the returned vector over all nodes is 1; when it is 0
  (no node, or every entry written was 0) no exception is raised and every returned entry
  is NaN.
\<close>

theorem global_normalisation:
  assumes "eigenvector_centrality_numpy B G = Inr r"
  shows "\<exists>c. assemble B G = Inr c
           \<and> r = map (\<lambda>(n, v). (n, np_divide v (linalg_norm (values_of c)))) c
           \<and> (if linalg_norm (values_of c) \<noteq> 0
              then \<exists>vs. fin_values (values_of r) = Some vs \<and> l2_norm vs = 1
              else \<forall>(n, v) \<in> set r. v = NaN)"
proof -
  from assms obtain c where c: "assemble B G = Inr c"
    and r: "r = map (\<lambda>(n, v). (n, np_divide v (linalg_norm (values_of c)))) c"
    by (auto simp: eigenvector_centrality_numpy_def Let_def split: if_splits sum.splits)
  let ?d = "linalg_norm (values_of c)"
  have "\<exists>vs. fin_values (values_of r) = Some vs \<and> l2_norm vs = 1" if "?d \<noteq> 0"
  proof (intro exI conjI)
    show "fin_values (values_of r) = Some (map (\<lambda>v. v * (1 / ?d)) (values_of c))"
      unfolding r values_of_divided using that by (rule fin_values_divided)
    show "l2_norm (map (\<lambda>v. v * (1 / ?d)) (values_of c)) = 1"
      using that unfolding linalg_norm_l2 by (rule l2_norm_self_normalised)
  qed
  moreover have "\<forall>(n, v) \<in> set r. v = NaN" if "?d = 0"
    using that zero_norm_gives_nan [of c] unfolding r linalg_norm_l2 by fastforce
  ultimately show ?thesis
    using c r by auto
qed

theorem global_normalisation_witness:
  "eigenvector_centrality_numpy with_numpy path2
     = Inr [(0, Fin (1 / sqrt 2)), (1, Fin (1 / sqrt 2))]
   \<and> fin_values (values_of [(0::nat, Fin (1 / sqrt 2)), (1, Fin (1 / sqrt 2))])
     = Some [1 / sqrt 2, 1 / sqrt 2]
   \<and> l2_norm [1 / sqrt 2, 1 / sqrt 2] = 1"
  using path2_numpy global_normalisation [OF path2_numpy]
  by (simp add: values_of_def l2_norm_def power_divide)

subsection \<open>Isolated nodes\<close>

text \<open>Power iteration: the entry of a node without neighbours stays 0.\<close>

lemma zero_atD: "zero_at n d \<Longrightarrow> (n, v) \<in> set d \<Longrightarrow> v = 0"
  by (fastforce simp: zero_at_def)

lemma set_setitem: "set (setitem d k a) \<subseteq> insert (k, a) (set d)"
  by (induction d) (auto split: if_splits)

lemma zero_at_setitem: "zero_at n d \<Longrightarrow> k \<noteq> n \<Longrightarrow> zero_at n (setitem d k a)"
  using set_setitem [of d k a] by (auto simp: zero_at_def)

lemma inner_loop_zero_at:
  "inner_loop xl k nbrs ks d = Inr d' \<Longrightarrow> zero_at n d \<Longrightarrow> k \<noteq> n \<or> ks = [] \<Longrightarrow> zero_at n d'"
proof (induction ks arbitrary: d)
  case Nil
  then show ?case by simp
next
  case (Cons b ks)
  then show ?case
    by (auto simp: zero_at_setitem split: sum.splits)
qed

lemma outer_loop_zero_at:
  "outer_loop G xl ns d = Inr d' \<Longrightarrow> zero_at n d \<Longrightarrow> map_of (adj G) n = Some [] \<Longrightarrow>
     zero_at n d'"
proof (induction ns arbitrary: d)
  case Nil
  then show ?case by simp
next
  case (Cons k ns)
  from Cons.prems(1) obtain nbrs d1 where
    nbrs: "map_of (adj G) k = Some nbrs"
    and inner: "inner_loop xl k nbrs (keys nbrs) d = Inr d1"
    and rest: "outer_loop G xl ns d1 = Inr d'"
    by (auto simp: getitem_def split: option.splits sum.splits)
  have "k \<noteq> n \<or> keys nbrs = []"
    using nbrs Cons.prems(3) by (auto simp: keys_def)
  from inner_loop_zero_at [OF inner Cons.prems(2) this]
  show ?case
    using Cons.IH [OF rest _ Cons.prems(3)] by simp
qed

lemma zero_at_fromkeys: "zero_at n (fromkeys ks 0)"
  by (auto simp: zero_at_def fromkeys_def)

lemma zero_at_scale: "zero_at n d \<Longrightarrow> zero_at n (scale s d)"
  by (auto simp: zero_at_def scale_def)

lemma iteration_zero_at:
  assumes "iteration G st = Inr (st', err)" and "map_of (adj G) n = Some []"
  shows "zero_at n (st_x st')"
proof -
  from assms(1) obtain y where
    y: "outer_loop G (st_x st) (keys (st_x st)) (fromkeys (keys (st_x st)) 0) = Inr y"
    and st': "st_x st' = scale (norm_factor y) y"
    by (auto simp: iteration_def Let_def keys_fromkeys split: sum.splits)
  from outer_loop_zero_at [OF y zero_at_fromkeys assms(2)] show ?thesis
    by (simp add: st' zero_at_scale)
qed

lemma keys_inner_loop: "inner_loop xl k nbrs ks d = Inr d' \<Longrightarrow> keys d' = keys d"
proof (induction ks arbitrary: d)
  case Nil
  then show ?case by simp
next
  case (Cons b ks)
  then show ?case
    by (auto simp: getitem_Inr keys_setitem split: sum.splits)
qed

lemma keys_outer_loop: "outer_loop G xl ns d = Inr d' \<Longrightarrow> keys d' = keys d"
proof (induction ns arbitrary: d)
  case Nil
  then show ?case by simp
next
  case (Cons k ns)
  then show ?case
    by (auto split: sum.splits dest: keys_inner_loop)
qed

lemma keys_iteration: "iteration G st = Inr (st', err) \<Longrightarrow> keys (st_x st') = keys (st_x st)"
  by (auto simp: iteration_def Let_def keys_scale keys_fromkeys split: sum.splits
      dest: keys_outer_loop)

lemma power_loop_isolated:
  "power_loop G tol k st = Inr r \<Longrightarrow> map_of (adj G) n = Some [] \<Longrightarrow>
     zero_at n r \<and> keys r = keys (st_x st)"
proof (induction k arbitrary: st)
  case 0
  then show ?case by simp
next
  case (Suc k)
  from Suc.prems(1) obtain st' err where it: "iteration G st = Inr (st', err)"
    by (auto split: sum.splits)
  show ?case
  proof (cases "err < real (number_of_nodes G) * tol")
    case True
    with Suc.prems it show ?thesis
      by (auto simp: iteration_zero_at keys_iteration)
  next
    case False
    with Suc.prems(1) it have "power_loop G tol k st' = Inr r" by simp
    from Suc.IH [OF this Suc.prems(2)] keys_iteration [OF it] show ?thesis by simp
  qed
qed

text \<open>The loop raises nothing but KeyError and the convergence error.\<close>

lemma inner_loop_error: "inner_loop xl k nbrs ks d = Inl e \<Longrightarrow> e = KeyError"
  by (induction ks arbitrary: d) (auto simp: getitem_def split: option.splits sum.splits)

lemma outer_loop_error: "outer_loop G xl ns d = Inl e \<Longrightarrow> e = KeyError"
  by (induction ns arbitrary: d)
    (auto simp: getitem_def split: option.splits sum.splits dest: inner_loop_error)

lemma abs_diffs_error: "abs_diffs d xl ns = Inl e \<Longrightarrow> e = KeyError"
  by (induction ns) (auto simp: getitem_def split: option.splits sum.splits)

lemma iteration_error: "iteration G st = Inl e \<Longrightarrow> e = KeyError"
  by (auto simp: iteration_def Let_def split: sum.splits
      dest: outer_loop_error abs_diffs_error)

lemma power_loop_error:
  "power_loop G tol k st = Inl e \<Longrightarrow> e = KeyError \<or> e = NetworkXError convergence_message"
proof (induction k arbitrary: st)
  case 0
  then show ?case by simp
next
  case (Suc k)
  then show ?case
    by (auto split: sum.splits prod.splits if_splits dest: iteration_error)
qed

text \<open>The NumPy variant: a node that is a component of its own.\<close>

lemma adj_matrix_isolated: "map_of (adj G) n = Some [] \<Longrightarrow> adj_matrix G [n] = [[0]]"
  by (simp add: adj_matrix_def)

lemma component_step_singleton:
  assumes "map_of (adj G) n = Some []" and "eig B [[0]] = ([ev], [[v]])"
  shows "component_step B G [n] c = Inr (setitem c n \<bar>v\<bar>)"
proof -
  have "dominant B G [n] = Inr [v]"
    using assms by (simp add: dominant_def adj_matrix_isolated argsort_def first_index_def)
  moreover have "v * sgn v = \<bar>v\<bar>"
    by (simp add: abs_sgn mult.commute)
  ultimately show ?thesis
    by (simp add: component_step_def np_max_def)
qed

lemma map_of_update_other:
  "n \<notin> fst ` set ps \<Longrightarrow> map_of (update d ps) n = map_of d n"
  by (induction ps arbitrary: d) (auto simp: map_of_setitem)

lemma component_step_other:
  assumes "component_step B G cn c = Inr c'" and "n \<notin> set cn"
  shows "map_of c' n = map_of c n"
proof -
  from assms(1) obtain vs where c': "c' = update c (zip cn vs)"
    by (auto simp: component_step_def split: sum.splits)
  have "n \<notin> fst ` set (zip cn vs)"
    using assms(2) by (auto dest: set_zip_leftD)
  then show ?thesis
    by (simp add: c' map_of_update_other)
qed

lemma component_loop_singleton:
  assumes "map_of (adj G) n = Some []" and "eig B [[0]] = ([ev], [[v]])"
  shows "component_loop B G cns c = Inr c' \<Longrightarrow>
         \<forall>cn \<in> set cns. n \<in> set cn \<longrightarrow> cn = [n] \<Longrightarrow>
           map_of c' n = (if [n] \<in> set cns then Some \<bar>v\<bar> else map_of c n)"
proof (induction cns arbitrary: c)
  case Nil
  then show ?case by simp
next
  case (Cons cn cns)
  from Cons.prems(1) obtain c1 where
    step: "component_step B G cn c = Inr c1" and rest: "component_loop B G cns c1 = Inr c'"
    by (auto split: sum.splits)
  from Cons.prems(2) have others: "\<forall>cn \<in> set cns. n \<in> set cn \<longrightarrow> cn = [n]"
    by simp
  note ih = Cons.IH [OF rest others]
  show ?case
  proof (cases "cn = [n]")
    case True
    with step have "c1 = setitem c n \<bar>v\<bar>"
      by (simp add: component_step_singleton [OF assms])
    then have "map_of c1 n = Some \<bar>v\<bar>"
      by (simp add: map_of_setitem)
    with ih True show ?thesis by simp
  next
    case False
    with Cons.prems(2) have "n \<notin> set cn" by auto
    from component_step_other [OF step this] ih False show ?thesis by simp
  qed
qed

lemma numpy_error: "eigenvector_centrality_numpy B G \<noteq> Inl ZeroDivisionError"
proof -
  have col: "column m j \<noteq> Inl ZeroDivisionError" for m j
    by (induction m) (auto split: sum.splits)
  have step: "component_step B G cn c \<noteq> Inl ZeroDivisionError" for cn c
    using col
    by (auto simp: component_step_def dominant_def first_index_def np_max_def Let_def
        split: sum.splits list.splits prod.splits)
  have "component_loop B G cns c \<noteq> Inl ZeroDivisionError" for cns c
    using step by (induction cns arbitrary: c) (auto split: sum.splits)
  then show ?thesis
    by (auto simp: eigenvector_centrality_numpy_def assemble_def Let_def split: sum.splits)
qed

lemma l2_norm_positive: "v \<in> set vs \<Longrightarrow> v \<noteq> 0 \<Longrightarrow> 0 < l2_norm vs"
  using l2_norm_nonneg [of vs] l2_norm_zero [of vs] by force

lemma map_of_divided:
  "map_of (map (\<lambda>(n, v). (n, np_divide v d)) c) n = map_option (\<lambda>v. np_divide v d) (map_of c n)"
  by (induction c) auto

lemma numpy_isolated:
  assumes "map_of (adj G) n = Some []"
    and "eigenvector_centrality_numpy B G = Inr r"
    and "[n] \<in> set (connected_components B G)"
    and "\<forall>cn \<in> set (connected_components B G). n \<in> set cn \<longrightarrow> cn = [n]"
    and "eig B [[0]] = ([ev], [[v]])" and "v \<noteq> 0"
  shows "\<exists>s. 0 < s \<and> map_of r n = Some (Fin s)"
proof -
  from assms(2) obtain c where c: "assemble B G = Inr c"
    and r: "r = map (\<lambda>(n, v). (n, np_divide v (linalg_norm (values_of c)))) c"
    by (auto simp: eigenvector_centrality_numpy_def Let_def split: if_splits sum.splits)
  let ?d = "linalg_norm (values_of c)"
  from component_loop_singleton [OF assms(1,5) c [unfolded assemble_def] assms(4)] assms(3)
  have at_n: "map_of c n = Some \<bar>v\<bar>" by simp
  then have "(n, \<bar>v\<bar>) \<in> set c" by (rule map_of_SomeD)
  then have "\<bar>v\<bar> \<in> set (values_of c)"
    by (force simp: values_of_def)
  then have pos: "0 < ?d"
    using assms(6) by (simp add: linalg_norm_l2 l2_norm_positive)
  have "map_of r n = Some (Fin (\<bar>v\<bar> / ?d))"
    unfolding r map_of_divided at_n using pos by (simp add: np_divide_def)
  moreover have "0 < \<bar>v\<bar> / ?d"
    using pos assms(6) by simp
  ultimately show ?thesis by blast
qed

lemma path2_isolated_numpy:
  "eigenvector_centrality_numpy with_numpy path2_isolated
     = Inr [(0, Fin (1 / 2)), (1, Fin (1 / 2)), (2, Fin (1 / sqrt 2))]"
  by (simp add: eigenvector_centrality_numpy_def with_numpy_def is_multigraph_type_def
      assemble_def fromkeys_def keys_def values_of_def path2_isolated_def component_step_def
      dominant_def adj_matrix_def get_weight_def argsort_def
      first_index_def np_max_def sgn_if linalg_norm_def np_divide_def power2_eq_square
      power_divide)

lemma path2_isolated_two_passes:
  "power_loop path2_isolated (1 / 1000000) (Suc (Suc k))
     \<lparr>st_x = [(0, 1 / 3), (1, 1 / 3), (2, 1 / 3)],
        st_xlast = [(0, 1 / 3), (1, 1 / 3), (2, 1 / 3)]\<rparr>
     = Inr [(0, 1 / (sqrt (2 / 9) * 3)), (1, 1 / (sqrt (2 / 9) * 3)), (2, 0)]"
  by (simp add: path2_isolated_def keys_def values_of_def scale_def iteration_def
      fromkeys_def getitem_def norm_factor_def number_of_nodes_def Let_def py_div_def
      get_weight_def power2_eq_square)

lemma path2_isolated_run:
  "snd (eigenvector_centrality path2_isolated 100 (1 / 1000000) None)
     = Inr [(0, 1 / (sqrt (2 / 9) * 3)), (1, 1 / (sqrt (2 / 9) * 3)), (2, 0)]"
proof -
  have "nat 100 = Suc (Suc 98)" by simp
  then show ?thesis
    using path2_isolated_two_passes [of 98]
    by (simp add: eigenvector_centrality_def is_multigraph_type_def keys_def len_def
      py_div_def normalize_start_def values_of_def scale_def path2_isolated_def
      del: nat_numeral)
qed

text \<open>
  C2, as stated, fails for \<open>eigenvector_centrality_numpy\<close>: on the path 0-1 with the
  isolated node 2, the node 2 is a component of its own, the eigenvector of its 1x1 matrix
  is the unit vector, and after the global division the node has the score
  \<open>1/sqrt 2\<close>, not 0.
\<close>

theorem isolated_node_numpy_score:
  "map_of (adj path2_isolated) 2 = Some []
   \<and> eigenvector_centrality_numpy with_numpy path2_isolated
       = Inr [(0, Fin (1 / 2)), (1, Fin (1 / 2)), (2, Fin (1 / sqrt 2))]
   \<and> Fin (1 / sqrt 2) \<noteq> Fin 0"
  using path2_isolated_numpy by (simp add: path2_isolated_def)

text \<open>
  C2, amended: let \<open>n\<close> be a node without neighbours. In \<open>eigenvector_centrality\<close> every
  returned vector has 0 at \<open>n\<close> (with the default starting vector \<open>n\<close> is a key of the
  result), and with the default starting vector the call does not raise ZeroDivisionError.
  In \<open>eigenvector_centrality_numpy\<close> no ZeroDivisionError is raised either, but the score
  of \<open>n\<close> is not 0: when \<open>n\<close> is a component of its own and the solver answers the 1x1
  zero matrix with a nonzero eigenvector, the returned score of \<open>n\<close> is a positive number.
\<close>

theorem isolated_node_scores:
  assumes "\<not> is_multigraph_type G" and "map_of (adj G) n = Some []"
  shows "(\<forall>r. snd (eigenvector_centrality G max_iter tol nstart) = Inr r \<longrightarrow>
            (\<forall>v. (n, v) \<in> set r \<longrightarrow> v = 0))
       \<and> (\<forall>r. snd (eigenvector_centrality G max_iter tol None) = Inr r \<longrightarrow>
            map_of r n = Some 0)
       \<and> snd (eigenvector_centrality G max_iter tol None) \<noteq> Inl ZeroDivisionError
       \<and> eigenvector_centrality_numpy B G \<noteq> Inl ZeroDivisionError
       \<and> (\<forall>r ev v. eigenvector_centrality_numpy B G = Inr r
                  \<and> [n] \<in> set (connected_components B G)
                  \<and> (\<forall>cn \<in> set (connected_components B G). n \<in> set cn \<longrightarrow> cn = [n])
                  \<and> eig B [[0]] = ([ev], [[v]]) \<and> v \<noteq> 0 \<longrightarrow>
            (\<exists>s. 0 < s \<and> map_of r n = Some (Fin s)))"
proof (intro conjI allI impI)
  fix r v
  assume ret: "snd (eigenvector_centrality G max_iter tol nstart) = Inr r"
    and mem: "(n, v) \<in> set r"
  from ret obtain k st where "power_loop G tol k st = Inr r"
    by (auto simp: eigenvector_centrality_def split: if_splits sum.splits)
  from power_loop_isolated [OF this assms(2)] have "zero_at n r" by simp
  then show "v = 0"
    using mem by (rule zero_atD)
next
  have nonempty: "adj G \<noteq> []"
    using assms(2) by auto
  let ?x = "map (\<lambda>n. (n, 1 / real (len G))) (keys (adj G))"
  have run: "snd (eigenvector_centrality G max_iter tol None)
      = power_loop G tol (nat max_iter) \<lparr>st_x = ?x, st_xlast = ?x\<rparr>"
    using assms(1) by (simp add: eigenvector_centrality_def default_vector [OF nonempty])
  show "snd (eigenvector_centrality G max_iter tol None) \<noteq> Inl ZeroDivisionError"
    unfolding run using power_loop_error by fastforce
  fix r
  assume "snd (eigenvector_centrality G max_iter tol None) = Inr r"
  then have "power_loop G tol (nat max_iter) \<lparr>st_x = ?x, st_xlast = ?x\<rparr> = Inr r"
    by (simp add: run)
  from power_loop_isolated [OF this assms(2)]
  have z: "zero_at n r" and k: "keys r = keys (adj G)"
    by (simp_all add: keys_product)
  have "n \<in> set (keys (adj G))"
    using assms(2) map_of_keys [of "adj G" n] by simp
  then obtain v where v: "map_of r n = Some v"
    using k map_of_keys [of r n] by auto
  then have "(n, v) \<in> set r" by (rule map_of_SomeD)
  with zero_atD [OF z] v show "map_of r n = Some 0"
    by simp
next
  show "eigenvector_centrality_numpy B G \<noteq> Inl ZeroDivisionError"
    by (rule numpy_error)
next
  fix r ev v
  assume "eigenvector_centrality_numpy B G = Inr r
        \<and> [n] \<in> set (connected_components B G)
        \<and> (\<forall>cn \<in> set (connected_components B G). n \<in> set cn \<longrightarrow> cn = [n])
        \<and> eig B [[0]] = ([ev], [[v]]) \<and> v \<noteq> 0"
  then show "\<exists>s. 0 < s \<and> map_of r n = Some (Fin s)"
    using numpy_isolated [OF assms(2), of B r ev v] by blast
qed

theorem isolated_node_scores_witness:
  "\<not> is_multigraph_type path2_isolated
   \<and> map_of (adj path2_isolated) 2 = Some []
   \<and> snd (eigenvector_centrality path2_isolated 100 (1 / 1000000) None)
       = Inr [(0, 1 / (sqrt (2 / 9) * 3)), (1, 1 / (sqrt (2 / 9) * 3)), (2, 0)]
   \<and> eigenvector_centrality_numpy with_numpy path2_isolated
       = Inr [(0, Fin (1 / 2)), (1, Fin (1 / 2)), (2, Fin (1 / sqrt 2))]
   \<and> connected_components with_numpy path2_isolated = [[0, 1], [2]]
   \<and> eig with_numpy [[0]] = ([0], [[1]])
   \<and> map_of [(0::nat, Fin (1 / 2)), (1, Fin (1 / 2)), (2, Fin (1 / sqrt 2))] 2
       = Some (Fin (1 / sqrt 2))
   \<and> 0 < 1 / sqrt 2"
proof -
  have m: "\<not> is_multigraph_type path2_isolated"
    by (simp add: is_multigraph_type_def path2_isolated_def)
  have i: "map_of (adj path2_isolated) 2 = Some []"
    by (simp add: path2_isolated_def)
  have c: "connected_components with_numpy path2_isolated = [[0, 1], [2]]"
    by (simp add: with_numpy_def)
  have e: "eig with_numpy [[0]] = ([0], [[1]])"
    by (simp add: with_numpy_def)
  show ?thesis
    using m i c e path2_isolated_run path2_isolated_numpy
      isolated_node_scores [OF m i, of 100 "1 / 1000000" None with_numpy]
    by simp
qed

end
